theory Spec2Isabelle
  imports Main "HOL-Library.Sublist" "HOL-Library.AList"
begin

section \<open>Python strings\<close>

text \<open>
  Strings of the module are modelled as \<^typ>\<open>string\<close>, one \<^typ>\<open>char\<close> per character
  (code points below 256). The three characters that cannot be written inside a string
  literal get a name.
\<close>

abbreviation bs :: string where "bs \<equiv> [CHR 0x5C]"
abbreviation sq :: string where "sq \<equiv> [CHR 0x27]"
abbreviation dq :: string where "dq \<equiv> [CHR 0x22]"
abbreviation nl :: char where "nl \<equiv> CHR 0x0A"

text \<open>\<^verbatim>\<open>str.isspace\<close> on one character, which is also what \<^verbatim>\<open>\s\<close> matches.\<close>

definition is_space :: "char \<Rightarrow> bool" where
  "is_space c = (c \<in> set [CHR 0x09, CHR 0x0A, CHR 0x0B, CHR 0x0C, CHR 0x0D,
                            CHR 0x1C, CHR 0x1D, CHR 0x1E, CHR 0x1F, CHR 0x20,
                            CHR 0x85, CHR 0xA0])"

text \<open>\<^verbatim>\<open>s.strip()\<close>\<close>

definition strip :: "string \<Rightarrow> string" where
  "strip s = rev (dropWhile is_space (rev (dropWhile is_space s)))"

text \<open>\<^verbatim>\<open>sub in s\<close> on strings: \<^verbatim>\<open>sub\<close> occurs in \<^verbatim>\<open>s\<close> as a contiguous piece.\<close>

fun str_in :: "string \<Rightarrow> string \<Rightarrow> bool" where
  "str_in sub [] = (sub = [])"
| "str_in sub (c # cs) = (prefix sub (c # cs) \<or> str_in sub cs)"

text \<open>
  \<^verbatim>\<open>s.upper()\<close>. It is exact on ASCII text; a letter beyond ASCII is left as it is,
  where Python would change it. The pattern of \<^verbatim>\<open>swap_text\<close> uses it on ASCII names
  only, and elsewhere it shapes the text of commands and messages.
\<close>

definition upper_char :: "char \<Rightarrow> char" where
  "upper_char c =
     (let n = (of_char c :: nat)
      in if 97 \<le> n \<and> n \<le> 122 then char_of (n - 32) else c)"

definition upper :: "string \<Rightarrow> string" where
  "upper s = map upper_char s"

text \<open>\<^verbatim>\<open>s.split('\n')\<close> and \<^verbatim>\<open>"\n".join(ls)\<close>\<close>

fun split_nl :: "string \<Rightarrow> string list" where
  "split_nl [] = [[]]"
| "split_nl (c # cs) =
     (if c = nl then [] # split_nl cs
      else (case split_nl cs of [] \<Rightarrow> [[c]] | l # ls \<Rightarrow> (c # l) # ls))"

fun join_nl :: "string list \<Rightarrow> string" where
  "join_nl [] = []"
| "join_nl [l] = l"
| "join_nl (l # ls) = l @ nl # join_nl ls"

text \<open>Decimal digits of a number, and \<^verbatim>\<open>"{0:02d}".format(n)\<close>.\<close>

fun dec :: "nat \<Rightarrow> string" where
  "dec n = (if n < 10 then [''0123456789'' ! n]
            else dec (n div 10) @ [''0123456789'' ! (n mod 10)])"

definition fmt02 :: "nat \<Rightarrow> string" where
  "fmt02 n = (if n < 10 then CHR ''0'' # dec n else dec n)"

text \<open>\<^verbatim>\<open>"{0}".format(v)\<close> of a value that is a string or \<^verbatim>\<open>None\<close>.\<close>

fun fmt_opt :: "string option \<Rightarrow> string" where
  "fmt_opt None = ''None''"
| "fmt_opt (Some s) = s"

text \<open>
  A Python value that is a string or a list of strings, with \<^verbatim>\<open>!=\<close> on such values:
  a string and a list are never equal.
\<close>

datatype pyval = PyStr string | PyList "string list"

definition py_ne :: "pyval \<Rightarrow> pyval \<Rightarrow> bool" where
  "py_ne a b = (a \<noteq> b)"

text \<open>Iterating over a string yields its characters, each a string of length one.\<close>

definition iter_str :: "string \<Rightarrow> string list" where
  "iter_str s = map (\<lambda>c. [c]) s"

section \<open>The comment cards of \<^verbatim>\<open>run_module\<close>\<close>

text \<open>
  \<^verbatim>\<open>for i in range(59, 48, -1): if extra[i] == ' ': stopper = i; break\<close>, with
  \<^verbatim>\<open>stopper = 60\<close> before the loop. The loop only runs on a buffer longer than 60, so
  every index is in range.
\<close>

fun find_stopper :: "string \<Rightarrow> nat list \<Rightarrow> nat" where
  "find_stopper extra [] = 60"
| "find_stopper extra (i # is) =
     (if extra ! i = CHR '' '' then i else find_stopper extra is)"

definition card_open :: "nat \<Rightarrow> string" where
  "card_open ctr = ''/* C'' @ fmt02 ctr @ '':''"

lemma find_stopper_bounds:
  "\<forall>i\<in>set is. 49 \<le> i \<and> i \<le> 60 \<Longrightarrow>
     49 \<le> find_stopper extra is \<and> find_stopper extra is \<le> 60"
  by (induction "is") auto

lemma length_strip_le: "length (strip s) \<le> length s"
proof -
  have "length (strip s) = length (dropWhile is_space (rev (dropWhile is_space s)))"
    unfolding strip_def by (rule length_rev)
  also have "\<dots> \<le> length (rev (dropWhile is_space s))"
    by (rule length_dropWhile_le)
  also have "\<dots> = length (dropWhile is_space s)"
    by (rule length_rev)
  also have "\<dots> \<le> length s"
    by (rule length_dropWhile_le)
  finally show ?thesis .
qed

lemma stopper_range: "set (rev [49..<60]) \<subseteq> {49..60}"
  by auto

lemma find_stopper_ge: "49 \<le> find_stopper extra (rev [49..<60])"
  using find_stopper_bounds [of "rev [49..<60]" extra] stopper_range by auto

lemma find_stopper_le: "find_stopper extra (rev [49..<60]) \<le> 60"
  using find_stopper_bounds [of "rev [49..<60]" extra] stopper_range by auto

text \<open>
  \<^verbatim>\<open>while len(extra) > 0: ...\<close>: the state of the loop is the buffer, the card counter
  and the text built so far.
\<close>

function wrap_cards :: "string \<Rightarrow> nat \<Rightarrow> string \<Rightarrow> string \<times> nat \<times> string" where
  "wrap_cards extra ctr parmtext =
     (if length extra > 0 then
        (if length extra > 60 then
           (let stopper = find_stopper extra (rev [49..<60]);
                tmpx = take stopper extra
            in wrap_cards (strip (drop stopper extra)) (ctr + 1)
                 (parmtext @ card_open ctr @ tmpx @ '' */\<newline>''))
         else wrap_cards [] (ctr + 1) (parmtext @ card_open ctr @ extra @ '' */\<newline>''))
      else (extra, ctr, parmtext))"
  by pat_completeness auto
termination
  apply (relation "measure (\<lambda>(extra, ctr, parmtext). length extra)")
  subgoal by simp
  subgoal for extra ctr parmtext stopper tmpx
    using find_stopper_ge [of extra] length_strip_le [of "drop stopper extra"]
    by (simp only: in_measure prod.case length_drop)
  subgoal by (simp only: in_measure prod.case list.size)
  done

declare wrap_cards.simps [simp del]

text \<open>
  \<^verbatim>\<open>for tabline in comments: if len(extra) > 0: extra += ' '; extra += tabline.strip();
  while ...\<close>
\<close>

fun comment_loop :: "string list \<Rightarrow> string \<Rightarrow> nat \<Rightarrow> string \<Rightarrow> string \<times> nat \<times> string" where
  "comment_loop [] extra ctr parmtext = (extra, ctr, parmtext)"
| "comment_loop (tabline # rest) extra ctr parmtext =
     (let extra1 = (if length extra > 0 then extra @ '' '' else extra);
          extra2 = extra1 @ strip tabline
      in case wrap_cards extra2 ctr parmtext of
           (extra3, ctr3, parmtext3) \<Rightarrow> comment_loop rest extra3 ctr3 parmtext3)"

text \<open>
  \<^verbatim>\<open>if comments is not None: extra = ''; ctr = 1; for ...\<close>: the text after the cards have
  been added to it.
\<close>

definition add_comments :: "string list option \<Rightarrow> string \<Rightarrow> string" where
  "add_comments comments parmtext =
     (case comments of
        None \<Rightarrow> parmtext
      | Some cs \<Rightarrow> snd (snd (comment_loop cs [] 1 parmtext)))"

section \<open>\<^verbatim>\<open>swap_text\<close>\<close>

text \<open>
  The pattern \<^verbatim>\<open>ms\<close> is compiled from
  \<^verbatim>\<open>r"^\s*MOUNT\s+FILESYSTEM\(\s*'" + removing.upper() + r"'\s*\)"\<close>. The text of
  \<^verbatim>\<open>removing\<close> is pasted into the pattern unescaped, so a dot in it matches any
  character but a newline, and a dollar sign matches at the end of the line only. These
  patterns are modelled in full, by \<open>rx_match\<close> below.

  A resource name with another metacharacter of \<^verbatim>\<open>re\<close> (parentheses around a member
  name, for one) or with a non-ASCII character gives a pattern outside that fragment. What
  \<^verbatim>\<open>re.compile\<close> makes of the pattern built from such a name is left to the regular
  expression engine, a parameter of the model: \<open>None\<close> when \<^verbatim>\<open>re.compile\<close> raises
  (the run then ends in \<open>ReError\<close>), else the test \<^verbatim>\<open>ms.match(line) is not None\<close> of
  the compiled pattern. Every property below holds for any such engine.
  The call \<^verbatim>\<open>print(ms)\<close> changes nothing that the function returns and is left out.
\<close>

type_synonym re_engine = "string \<Rightarrow> (string \<Rightarrow> bool) option"

datatype rx = RSpaces0 | RSpaces1 | RLit char | RAny | REnd

fun rx_match :: "rx list \<Rightarrow> string \<Rightarrow> bool" where
  "rx_match [] s = True"
| "rx_match (RLit c # r) [] = False"
| "rx_match (RLit c # r) (x # xs) = (x = c \<and> rx_match r xs)"
| "rx_match (RAny # r) [] = False"
| "rx_match (RAny # r) (x # xs) = (x \<noteq> nl \<and> rx_match r xs)"
| "rx_match (RSpaces0 # r) [] = rx_match r []"
| "rx_match (RSpaces0 # r) (x # xs) =
     (rx_match r (x # xs) \<or> (is_space x \<and> rx_match (RSpaces0 # r) xs))"
| "rx_match (RSpaces1 # r) [] = False"
| "rx_match (RSpaces1 # r) (x # xs) = (is_space x \<and> rx_match (RSpaces0 # r) xs)"
| "rx_match (REnd # r) s = ((s = [] \<or> s = [nl]) \<and> rx_match r s)"

datatype error = Fail string | CommandError | ReError

definition rx_unmodelled :: "char \<Rightarrow> bool" where
  "rx_unmodelled c = (c \<in> set (''^*+?{}[]|()'' @ bs) \<or> (128::nat) \<le> of_char c)"

definition rx_of_char :: "char \<Rightarrow> rx" where
  "rx_of_char c = (if c = CHR ''.'' then RAny else if c = CHR ''$'' then REnd else RLit c)"

definition ms_rx :: "string \<Rightarrow> rx list" where
  "ms_rx removing =
     [RSpaces0] @ map RLit ''MOUNT'' @ [RSpaces1] @ map RLit ''FILESYSTEM(''
     @ [RSpaces0] @ map RLit sq @ map rx_of_char (upper removing)
     @ map RLit sq @ [RSpaces0, RLit (CHR '')'')]"

definition ms_compile :: "re_engine \<Rightarrow> string \<Rightarrow> error + (string \<Rightarrow> bool)" where
  "ms_compile re removing =
     (if list_ex rx_unmodelled removing then
        (case re removing of
           None \<Rightarrow> Inl ReError
         | Some ms \<Rightarrow> Inr ms)
      else Inr (rx_match (ms_rx removing)))"

text \<open>
  The walk upwards from the matched line, \<^verbatim>\<open>for tmpindex in range(index - 1, 0, -1)\<close>:
  the index at which the loop breaks, or \<open>None\<close> when it runs to its end.
\<close>

fun back_walk :: "string list \<Rightarrow> nat list \<Rightarrow> nat option" where
  "back_walk content_lines [] = None"
| "back_walk content_lines (tmpindex # rest) =
     (let tmpline = content_lines ! tmpindex
      in if length tmpline > 0 then
           (if (if take 2 tmpline \<noteq> ''/*'' then True else take 6 tmpline = ''/* BEG'')
            then Some tmpindex
            else back_walk content_lines rest)
         else Some tmpindex)"

record scan_state =
  remove_starting_at_index :: "nat option"
  remove_ending_at_index :: "nat option"
  boneyard :: "(nat \<times> nat) list"

definition doit :: "string \<Rightarrow> bool" where
  "doit line =
     (if length line > 0 then
        (if line ! 0 \<noteq> CHR '' '' \<and> line ! 0 \<noteq> CHR 0x09 \<and> take 2 line \<noteq> ''/*'' then True
         else take 6 line = ''/* END'')
      else True)"

text \<open>
  One turn of \<^verbatim>\<open>for index, line in enumerate(content_lines)\<close>. The dictionary
  \<^verbatim>\<open>boneyard\<close> is an association list in insertion order; \<^const>\<open>AList.update\<close>
  overwrites a key where it stands, as a \<^verbatim>\<open>dict\<close> does.
\<close>

definition scan_line :: "(string \<Rightarrow> bool) \<Rightarrow> string list \<Rightarrow> scan_state \<Rightarrow> nat \<Rightarrow> string \<Rightarrow> scan_state" where
  "scan_line ms content_lines st index line =
     (if remove_starting_at_index st = None \<and> ms line then
        st\<lparr>remove_starting_at_index :=
             Some (case (if index > 0 then back_walk content_lines (rev [1..<index]) else None) of
                     None \<Rightarrow> index
                   | Some tmpindex \<Rightarrow> tmpindex),
           remove_ending_at_index := Some index\<rparr>
      else
        (case remove_starting_at_index st of
           None \<Rightarrow> st
         | Some start \<Rightarrow>
             (if doit line then
                st\<lparr>remove_starting_at_index := None, remove_ending_at_index := None,
                   boneyard := AList.update start index (boneyard st)\<rparr>
              else st\<lparr>remove_ending_at_index := Some index\<rparr>)))"

fun scan_loop :: "(string \<Rightarrow> bool) \<Rightarrow> string list \<Rightarrow> (nat \<times> string) list \<Rightarrow> scan_state \<Rightarrow> scan_state" where
  "scan_loop ms content_lines [] st = st"
| "scan_loop ms content_lines ((index, line) # rest) st =
     scan_loop ms content_lines rest (scan_line ms content_lines st index line)"

text \<open>The block still open when the lines run out.\<close>

definition close_span :: "scan_state \<Rightarrow> (nat \<times> nat) list" where
  "close_span st =
     (case remove_starting_at_index st of
        None \<Rightarrow> boneyard st
      | Some start \<Rightarrow>
          (case remove_ending_at_index st of
             None \<Rightarrow> boneyard st
           | Some ending \<Rightarrow>
               (if start \<noteq> ending then AList.update start ending (boneyard st)
                else boneyard st)))"

text \<open>
  \<^verbatim>\<open>for startidx in reversed(boneyard.keys()): del(content_lines[startidx:endidx + 1])\<close>,
  on the reversed list of entries. A slice that starts beyond the end deletes nothing, in
  Python as with \<^const>\<open>take\<close> and \<^const>\<open>drop\<close>.
\<close>

fun delete_spans :: "(nat \<times> nat) list \<Rightarrow> string list \<Rightarrow> string list" where
  "delete_spans [] content_lines = content_lines"
| "delete_spans ((startidx, endidx) # rest) content_lines =
     delete_spans rest (take startidx content_lines @ drop (endidx + 1) content_lines)"

definition located :: "(string \<Rightarrow> bool) \<Rightarrow> string list \<Rightarrow> (nat \<times> nat) list" where
  "located ms original =
     close_span (scan_loop ms original (enumerate 0 original)
       \<lparr>remove_starting_at_index = None, remove_ending_at_index = None, boneyard = []\<rparr>)"

text \<open>
  \<^verbatim>\<open>swap_text(original, adding, removing)\<close> changes the list \<^verbatim>\<open>original\<close> in place
  (\<^verbatim>\<open>content_lines\<close> is another name of the same list) and returns the joined text.
  The model returns both: the list as the call leaves it, and the text. Its first argument
  is the regular expression engine.
\<close>

definition swap_text :: "re_engine \<Rightarrow> string list \<Rightarrow> string \<Rightarrow> string \<Rightarrow> error + (string list \<times> string)" where
  "swap_text re original adding removing =
     (case ms_compile re removing of
        Inl e \<Rightarrow> Inl e
      | Inr ms \<Rightarrow>
          (let content_lines = delete_spans (rev (located ms original)) original;
               content_lines = (if length adding > 0 then content_lines @ split_nl adding
                                else content_lines)
           in Inr (content_lines, join_nl content_lines)))"

section \<open>The parameters of the module\<close>

text \<open>
  The parsed arguments. A parameter that \<^verbatim>\<open>run_module\<close> tests against
  \<^verbatim>\<open>None\<close> is an option; \<^verbatim>\<open>mount_opts\<close> (default \<^verbatim>\<open>rw\<close>) is used as a
  string without such a test, and \<^verbatim>\<open>allow_uid\<close> as a truth value.
\<close>

record persistent_opts =
  data_set_name :: string
  comments :: "string list option"
  backup :: bool
  backup_name :: "string option"

record params =
  src :: string
  path :: "string option"
  fs_type :: "string option"
  state :: string
  persistent :: "persistent_opts option"
  unmount_opts :: "string option"
  mount_opts :: string
  src_params :: "string option"
  tag_untagged :: "string option"
  tag_ccsid :: "string option"
  allow_uid :: bool
  sysname :: "string option"
  automove :: "string option"
  automove_list :: "string option"

text \<open>Truth of a string that may be \<^verbatim>\<open>None\<close>: set and not empty.\<close>

fun truthy :: "string option \<Rightarrow> bool" where
  "truthy None = False"
| "truthy (Some s) = (s \<noteq> [])"

text \<open>
  \<^verbatim>\<open>comments\<close>: the list of the persist target, or the string
  \<^verbatim>\<open>'no comments provided'\<close> when there is no persist target. The loop over it then
  runs over the characters of that string.
\<close>

definition comments_of :: "params \<Rightarrow> string list option" where
  "comments_of p =
     (case persistent p of
        Some ps \<Rightarrow> comments ps
      | None \<Rightarrow> Some (iter_str ''no comments provided''))"

definition write_persistent :: "params \<Rightarrow> bool" where
  "write_persistent p =
     (if str_in ''mounted'' (state p) \<or> str_in ''present'' (state p) \<or> str_in ''absent'' (state p)
      then (case persistent p of
              Some ps \<Rightarrow> length (upper (data_set_name ps)) > 0
            | None \<Rightarrow> False)
      else False)"

definition gonna_mount :: "params \<Rightarrow> bool" where
  "gonna_mount p =
     (if str_in ''unmounted'' (state p) \<or> str_in ''absent'' (state p) then False else True)"

definition gonna_unmount :: "params \<Rightarrow> bool" where
  "gonna_unmount p =
     (if str_in ''unmounted'' (state p) \<or> str_in ''remounted'' (state p)
         \<or> str_in ''absent'' (state p)
      then True else False)"

section \<open>The mount command and the block text\<close>

text \<open>
  \<^verbatim>\<open>parmtext\<close> starts as the \<^verbatim>\<open>BEGIN\<close> marker line; \<^verbatim>\<open>parmtail\<close> is a newline
  and the same line with \<^verbatim>\<open>BEGIN\<close> replaced by \<^verbatim>\<open>END\<close>. The time stamp
  \<^verbatim>\<open>dtstr\<close> is digits and a dash, so the replacement touches the marker word only.
\<close>

definition parmhead :: "string \<Rightarrow> string" where
  "parmhead dtstr = ''/* BEGIN ANSIBLE MANAGED BLOCK '' @ dtstr @ '' */\<newline>''"

definition parmtail :: "string \<Rightarrow> string" where
  "parmtail dtstr = ''\<newline>/* END ANSIBLE MANAGED BLOCK '' @ dtstr @ '' */\<newline>''"

text \<open>
  The two texts are built side by side: each definition below is one step of the source,
  taking and returning the pair \<^verbatim>\<open>(fullcmd, parmtext)\<close>.
\<close>

type_synonym texts = "string \<times> string"

definition start_mount :: "string \<Rightarrow> string option \<Rightarrow> string option \<Rightarrow> string \<Rightarrow> texts" where
  "start_mount src' path' fs_type' parmtext =
     (''tsocmd MOUNT FILESYSTEM'' @ bs @ ''( '' @ bs @ sq @ src' @ bs @ sq @ '' '' @ bs
        @ '') MOUNTPOINT'' @ bs @ ''( '' @ bs @ sq @ fmt_opt path' @ bs @ sq @ '' '' @ bs
        @ '') TYPE'' @ bs @ ''( '' @ sq @ fmt_opt fs_type' @ sq @ '' '' @ bs @ '')'',
      parmtext @ ''MOUNT FILESYSTEM('' @ sq @ src' @ sq @ '')\<newline>      MOUNTPOINT('' @ sq
        @ fmt_opt path' @ sq @ '')\<newline>      TYPE('' @ sq @ fmt_opt fs_type' @ sq @ '')'')"

definition add_mode :: "string \<Rightarrow> texts \<Rightarrow> texts" where
  "add_mode mount_opts' t =
     (let subcmd = (if str_in ''ro'' mount_opts' \<or> str_in ''RO'' mount_opts' then ''READ''
                    else ''RDWR'')
      in (fst t @ '' MODE'' @ bs @ ''('' @ subcmd @ bs @ '')'',
          snd t @ ''\<newline>      MODE('' @ subcmd @ '')''))"

definition add_src_params :: "string option \<Rightarrow> texts \<Rightarrow> texts" where
  "add_src_params src_params' t =
     (case src_params' of
        None \<Rightarrow> t
      | Some sp \<Rightarrow>
          (if length sp > 1 then
             (fst t @ '' PARM'' @ bs @ ''('' @ bs @ sq @ sp @ bs @ sq @ bs @ '')'',
              snd t @ ''\<newline>      PARM('' @ sq @ sp @ sq @ '')'')
           else t))"

definition add_tag :: "string option \<Rightarrow> string option \<Rightarrow> texts \<Rightarrow> texts" where
  "add_tag tag_untagged' tag_ccsid' t =
     (case tag_untagged' of
        None \<Rightarrow> t
      | Some tu \<Rightarrow>
          (if length tu > 0 then
             (fst t @ '' TAG'' @ bs @ ''('' @ tu @ '','' @ fmt_opt tag_ccsid' @ bs @ '')'',
              snd t @ ''\<newline>      TAG('' @ tu @ '','' @ fmt_opt tag_ccsid' @ '')'')
           else t))"

definition add_setuid :: "bool \<Rightarrow> texts \<Rightarrow> texts" where
  "add_setuid allow_uid' t =
     (if allow_uid' then (fst t @ '' SETUID'', snd t @ ''\<newline>      SETUID'')
      else (fst t @ '' NOSETUID'', snd t @ ''\<newline>      NOSETUID''))"

definition add_wait :: "string \<Rightarrow> texts \<Rightarrow> texts" where
  "add_wait mount_opts' t =
     (if str_in ''NOWAIT'' mount_opts' \<or> str_in ''nowait'' mount_opts'
      then (fst t @ '' NOWAIT'', snd t @ ''\<newline>      NOWAIT'')
      else (fst t @ '' WAIT'', snd t @ ''\<newline>      WAIT''))"

definition add_security :: "string \<Rightarrow> texts \<Rightarrow> texts" where
  "add_security mount_opts' t =
     (if str_in ''NOSECURITY'' mount_opts' \<or> str_in ''nosecurity'' mount_opts'
      then (fst t @ '' NOSECURITY'', snd t @ ''\<newline>      NOSECURITY'')
      else (fst t @ '' SECURITY'', snd t @ ''\<newline>      SECURITY''))"

definition add_sysname :: "string option \<Rightarrow> texts \<Rightarrow> texts" where
  "add_sysname sysname' t =
     (case sysname' of
        None \<Rightarrow> t
      | Some sn \<Rightarrow>
          (if length sn > 0 \<and> length sn < 9 then
             (fst t @ '' SYSNAME'' @ bs @ ''('' @ sn @ bs @ '')'',
              snd t @ ''\<newline>      SYSNAME('' @ sn @ '')'')
           else t))"

definition add_automove :: "string option \<Rightarrow> string option \<Rightarrow> texts \<Rightarrow> texts" where
  "add_automove automove' automove_list' t =
     (case automove' of
        None \<Rightarrow> t
      | Some am \<Rightarrow>
          (if length am > 1 then
             (let t1 = (fst t @ '' '' @ am, snd t @ ''\<newline>      '' @ am)
              in case automove_list' of
                   None \<Rightarrow> t1
                 | Some al \<Rightarrow>
                     (if length al > 1 then
                        (fst t1 @ ''('' @ al @ '')'', snd t1 @ ''('' @ al @ '')'')
                      else t1))
           else t))"

text \<open>
  The branch \<^verbatim>\<open>if gonna_mount:\<close> as a whole, from the text that holds the marker and
  the comment cards; \<^verbatim>\<open>fs_type'\<close> is the type in upper case.
\<close>

definition mount_texts :: "params \<Rightarrow> string option \<Rightarrow> string \<Rightarrow> texts" where
  "mount_texts p fs_type' parmtext =
     add_automove (automove p) (automove_list p)
       (add_sysname (sysname p)
         (add_security (mount_opts p)
           (add_wait (mount_opts p)
             (add_setuid (allow_uid p)
               (add_tag (tag_untagged p) (tag_ccsid p)
                 (add_src_params (src_params p)
                   (add_mode (mount_opts p)
                     (start_mount (src p) (path p) fs_type' parmtext))))))))"

text \<open>
  \<^verbatim>\<open>fullcmd\<close> and \<^verbatim>\<open>parmtext\<close> as they stand after the mount branch: the block text
  gets its \<^verbatim>\<open>END\<close> line when mounting and is emptied otherwise.
\<close>

definition build_texts :: "params \<Rightarrow> string option \<Rightarrow> string \<Rightarrow> texts" where
  "build_texts p fs_type' dtstr =
     (if gonna_mount p then
        (let t = mount_texts p fs_type' (add_comments (comments_of p) (parmhead dtstr))
         in (fst t, snd t @ parmtail dtstr))
      else ([], []))"

section \<open>The unmount command\<close>

definition build_unmount :: "string \<Rightarrow> string option \<Rightarrow> string \<Rightarrow> string" where
  "build_unmount src' unmount_opts' fullcmd =
     (let fullumcmd = ''tsocmd UNMOUNT FILESYSTEM'' @ bs @ ''('' @ bs @ sq @ src' @ bs @ sq
                        @ bs @ '')''
      in case unmount_opts' of
           None \<Rightarrow> fullcmd @ '' '' @ ''NORMAL''
         | Some uo \<Rightarrow> (if length uo < 2 then fullcmd @ '' '' @ ''NORMAL'' else fullumcmd))"

section \<open>\<^verbatim>\<open>run_module\<close>\<close>

text \<open>
  What the module asks of the system it runs on: whether the run is a check-mode run, the
  answers of the existence tests and of \<^verbatim>\<open>os.mkdir\<close>, the return code and the output
  lines of \<^verbatim>\<open>df\<close>, the current time as \<^verbatim>\<open>dtstr\<close>, the name of the temporary
  file, the regular expression engine, the lines read from the temporary file once the store
  has been copied there, and the outcome of every other \<^verbatim>\<open>module.run_command\<close>:
  \<open>None\<close> when the call raises, else the return code with both outputs.
\<close>

record env =
  check_mode :: bool
  fs_exists :: bool
  mp_exists :: bool
  mkdir_ok :: bool
  df_rc :: int
  df_lines :: "string list"
  dtstr :: string
  run_command :: "string \<Rightarrow> (int \<times> string \<times> string) option"
  fst_exists :: bool
  tmp_file_filename :: string
  re_compile :: re_engine
  content :: "string list"

text \<open>
  The returned \<^verbatim>\<open>res_args\<close> (the fields that change after the first update), together
  with what the run did to the system: the commands it ran, in order, and the text it wrote
  back to the store, if it wrote any.
\<close>

record result =
  changed :: bool
  comment :: string
  cmd :: string
  rc :: int
  stdout :: "string option"
  stderr :: "string option"
  commands_run :: "string list"
  store_written :: "string option"

text \<open>
  The checks before anything is run, in the order of the source; a call of
  \<^verbatim>\<open>module.fail_json\<close> ends the run with its message. The value is the file system
  type in upper case. After a successful \<^verbatim>\<open>os.mkdir\<close> the second test of the mount
  point is taken to succeed.
\<close>

definition check_args :: "env \<Rightarrow> params \<Rightarrow> error + string option" where
  "check_args e p =
     (if \<not> truthy (path p) \<and> \<not> str_in ''unmounted'' (state p) \<and> \<not> str_in ''absent'' (state p)
      then Inl (Fail ''path is required for mount/remount state, and was not provided.'')
      else if \<not> truthy (fs_type p) \<and> \<not> str_in ''unmounted'' (state p)
                \<and> \<not> str_in ''absent'' (state p)
      then Inl (Fail ''fs_type is required for mount/remount state, and was not provided.'')
      else if \<not> fs_exists e
      then Inl (Fail (''Mount source ('' @ src p @ '') doesn't exist''))
      else if gonna_mount p \<and> \<not> mp_exists e \<and> \<not> mkdir_ok e
      then Inl CommandError
      else if df_rc e \<noteq> 0
      then Inl (Fail ''Checking filesystem list failed with error'')
      else Inr (if truthy (fs_type p) then map_option upper (fs_type p) else fs_type p))"

text \<open>\<^verbatim>\<open>for line in sttest: if src in line: currently_mounted = True; break\<close>\<close>

definition currently_mounted :: "env \<Rightarrow> params \<Rightarrow> bool" where
  "currently_mounted e p = list_ex (str_in (src p)) (df_lines e)"

text \<open>
  The state threaded through the two action blocks: \<^verbatim>\<open>changed\<close>, \<^verbatim>\<open>comment\<close>,
  \<^verbatim>\<open>currently_mounted\<close> and the commands run so far.
\<close>

record progress =
  p_changed :: bool
  p_comment :: string
  p_mounted :: bool
  p_run :: "string list"

definition unmount_step :: "env \<Rightarrow> params \<Rightarrow> string \<Rightarrow> progress \<Rightarrow> error + progress" where
  "unmount_step e p fullumcmd st =
     (if gonna_unmount p then
        (if p_mounted st then
           (if \<not> check_mode e then
              (case run_command e fullumcmd of
                 None \<Rightarrow> Inl CommandError
               | Some r \<Rightarrow>
                   Inr (st\<lparr>p_changed := True,
                           p_comment := p_comment st @ ''ran unmount command\<newline>'',
                           p_mounted := False,
                           p_run := p_run st @ [fullumcmd]\<rparr>))
            else Inr (st\<lparr>p_changed := True,
                         p_comment := p_comment st
                           @ ''(unmount) NO Action taken: ANSIBLE CHECK MODE\<newline>''\<rparr>))
         else Inr (st\<lparr>p_comment := p_comment st
                        @ ''Unmount called on data set that is not mounted.\<newline>''\<rparr>))
      else Inr st)"

definition mount_step :: "env \<Rightarrow> params \<Rightarrow> string \<Rightarrow> progress \<Rightarrow> error + progress" where
  "mount_step e p fullcmd st =
     (if gonna_mount p then
        (if \<not> p_mounted st then
           (if \<not> check_mode e then
              (case run_command e fullcmd of
                 None \<Rightarrow> Inl CommandError
               | Some r \<Rightarrow>
                   Inr (st\<lparr>p_changed := True,
                           p_comment := p_comment st @ ''ran mount command\<newline>'',
                           p_run := p_run st @ [fullcmd]\<rparr>))
            else Inr (st\<lparr>p_changed := True,
                         p_comment := p_comment st
                           @ ''(mount) NO Action taken: ANSIBLE CHECK MODE\<newline>''\<rparr>))
         else Inr (st\<lparr>p_comment := p_comment st
                        @ ''Mount called on data set that is already mounted.\<newline>''\<rparr>))
      else Inr st)"

text \<open>
  The block \<^verbatim>\<open>if write_persistent and module.check_mode is False:\<close>, entered with the
  persist target. The store is copied to the temporary file, copied on to the backup when
  one is asked for and named, read, and passed through \<^verbatim>\<open>swap_text\<close>. The test
  \<^verbatim>\<open>newtext != content\<close> compares the returned string with the list, which the call has
  changed in place; when it holds, the text is written to the temporary file and that file
  copied over the store.
\<close>

record persisted =
  s_comment :: string
  s_last :: "int \<times> string option \<times> string option"
  s_run :: "string list"
  s_written :: "string option"

definition last_of :: "int \<times> string \<times> string \<Rightarrow> int \<times> string option \<times> string option" where
  "last_of r = (fst r, Some (fst (snd r)), Some (snd (snd r)))"

definition copy_in :: "env \<Rightarrow> string \<Rightarrow> string" where
  "copy_in e dsn = ''cp '' @ dq @ ''//'' @ sq @ dsn @ sq @ dq @ '' '' @ tmp_file_filename e"

definition copy_out :: "env \<Rightarrow> string \<Rightarrow> string" where
  "copy_out e dsn = ''cp '' @ tmp_file_filename e @ '' '' @ dq @ ''//'' @ sq @ dsn @ sq @ dq"

definition backup_step :: "env \<Rightarrow> persistent_opts \<Rightarrow> persisted \<Rightarrow> error + persisted" where
  "backup_step e ps st =
     (if backup ps \<and> truthy (backup_name ps) then
        (let bn = upper (fmt_opt (backup_name ps))
         in case run_command e (copy_out e bn) of
              None \<Rightarrow> Inl CommandError
            | Some r \<Rightarrow>
                Inr (st\<lparr>s_comment := s_comment st @ ''Wrote backup to '' @ bn @ ''\<newline>'',
                        s_last := last_of r,
                        s_run := s_run st @ [copy_out e bn]\<rparr>))
      else Inr st)"

definition rewrite_step :: "env \<Rightarrow> params \<Rightarrow> string \<Rightarrow> string \<Rightarrow> persisted \<Rightarrow> error + persisted" where
  "rewrite_step e p dsn parmtext st =
     (case swap_text (re_compile e) (content e) parmtext (src p) of
        Inl err \<Rightarrow> Inl err
      | Inr (content', newtext) \<Rightarrow>
          (if py_ne (PyStr newtext) (PyList content') then
             (case run_command e (copy_out e dsn) of
                None \<Rightarrow> Inl CommandError
              | Some r \<Rightarrow>
                  Inr (st\<lparr>s_comment := s_comment st @ ''Modified '' @ dsn @ '' in place\<newline>'',
                          s_last := last_of r,
                          s_run := s_run st @ [copy_out e dsn],
                          s_written := Some newtext\<rparr>))
           else Inr st))"

definition persist_step :: "env \<Rightarrow> params \<Rightarrow> string \<Rightarrow> persisted \<Rightarrow> error + persisted" where
  "persist_step e p parmtext st =
     (if write_persistent p \<and> \<not> check_mode e then
        (case persistent p of
           None \<Rightarrow> Inr st
         | Some ps \<Rightarrow>
             (let dsn = upper (data_set_name ps)
              in if \<not> fst_exists e then
                   Inl (Fail (''persistent data_set_name member ('' @ dsn @ '') doesn't exist''))
                 else
                   (case run_command e (copy_in e dsn) of
                      None \<Rightarrow> Inl CommandError
                    | Some r \<Rightarrow>
                        (case backup_step e ps
                                (st\<lparr>s_last := last_of r, s_run := s_run st @ [copy_in e dsn]\<rparr>) of
                           Inl err \<Rightarrow> Inl err
                         | Inr st1 \<Rightarrow> rewrite_step e p dsn parmtext st1))))
      else Inr st)"

definition run_module :: "env \<Rightarrow> params \<Rightarrow> error + result" where
  "run_module e p =
     (case check_args e p of
        Inl err \<Rightarrow> Inl err
      | Inr fs_type' \<Rightarrow>
          (let t = build_texts p fs_type' (dtstr e);
               fullcmd = fst t;
               parmtext = snd t;
               fullumcmd = (if gonna_unmount p then build_unmount (src p) (unmount_opts p) fullcmd
                            else []);
               st0 = \<lparr>p_changed = False,
                      p_comment = (if gonna_mount p then ''starting\<newline>ran unmount command\<newline>''
                                   else ''starting\<newline>''),
                      p_mounted = currently_mounted e p,
                      p_run = []\<rparr>
           in case unmount_step e p fullumcmd st0 of
                Inl err \<Rightarrow> Inl err
              | Inr st1 \<Rightarrow>
                  (case mount_step e p fullcmd st1 of
                     Inl err \<Rightarrow> Inl err
                   | Inr st2 \<Rightarrow>
                       (case persist_step e p parmtext
                               \<lparr>s_comment = p_comment st2, s_last = (0, None, None),
                                s_run = p_run st2, s_written = None\<rparr> of
                          Inl err \<Rightarrow> Inl err
                        | Inr st3 \<Rightarrow>
                            Inr \<lparr>changed = p_changed st2,
                                 comment = s_comment st3,
                                 cmd = fullcmd @ fullumcmd,
                                 rc = fst (s_last st3),
                                 stdout = fst (snd (s_last st3)),
                                 stderr = snd (snd (s_last st3)),
                                 commands_run = s_run st3,
                                 store_written = s_written st3\<rparr>))))"

section \<open>The option facets of the specification\<close>

text \<open>
  The specification describes the mount command as the resource, path and type followed by
  the option facets in a fixed order: mode, source parameters, tagging, setuid, wait mode,
  security mode, owner system, automove with its list. The definitions of this section follow
  that description, not the source: a facet is a keyword with its values, \<open>facets\<close> lists
  the facets of a parameter set in the fixed order, and the two renderers write one facet
  as a piece of the interactive command and as a line of the declarative body.
\<close>

datatype facet =
    Mode string
  | Parm string
  | Tag string "string option"
  | Setuid bool
  | Wait bool
  | Security bool
  | Sysname string
  | Automove string "string option"

datatype keyword = KMode | KParm | KTag | KSetuid | KWait | KSecurity | KSysname | KAutomove

fun keyword_of :: "facet \<Rightarrow> keyword" where
  "keyword_of (Mode m) = KMode"
| "keyword_of (Parm sp) = KParm"
| "keyword_of (Tag tu tc) = KTag"
| "keyword_of (Setuid b) = KSetuid"
| "keyword_of (Wait b) = KWait"
| "keyword_of (Security b) = KSecurity"
| "keyword_of (Sysname sn) = KSysname"
| "keyword_of (Automove am al) = KAutomove"

definition fixed_order :: "keyword list" where
  "fixed_order = [KMode, KParm, KTag, KSetuid, KWait, KSecurity, KSysname, KAutomove]"

fun render_cmd :: "facet \<Rightarrow> string" where
  "render_cmd (Mode m) = '' MODE'' @ bs @ ''('' @ m @ bs @ '')''"
| "render_cmd (Parm sp) = '' PARM'' @ bs @ ''('' @ bs @ sq @ sp @ bs @ sq @ bs @ '')''"
| "render_cmd (Tag tu tc) = '' TAG'' @ bs @ ''('' @ tu @ '','' @ fmt_opt tc @ bs @ '')''"
| "render_cmd (Setuid b) = (if b then '' SETUID'' else '' NOSETUID'')"
| "render_cmd (Wait b) = (if b then '' WAIT'' else '' NOWAIT'')"
| "render_cmd (Security b) = (if b then '' SECURITY'' else '' NOSECURITY'')"
| "render_cmd (Sysname sn) = '' SYSNAME'' @ bs @ ''('' @ sn @ bs @ '')''"
| "render_cmd (Automove am al) =
     '' '' @ am @ (case al of None \<Rightarrow> [] | Some l \<Rightarrow> ''('' @ l @ '')'')"

fun render_body :: "facet \<Rightarrow> string" where
  "render_body (Mode m) = ''\<newline>      MODE('' @ m @ '')''"
| "render_body (Parm sp) = ''\<newline>      PARM('' @ sq @ sp @ sq @ '')''"
| "render_body (Tag tu tc) = ''\<newline>      TAG('' @ tu @ '','' @ fmt_opt tc @ '')''"
| "render_body (Setuid b) = (if b then ''\<newline>      SETUID'' else ''\<newline>      NOSETUID'')"
| "render_body (Wait b) = (if b then ''\<newline>      WAIT'' else ''\<newline>      NOWAIT'')"
| "render_body (Security b) = (if b then ''\<newline>      SECURITY'' else ''\<newline>      NOSECURITY'')"
| "render_body (Sysname sn) = ''\<newline>      SYSNAME('' @ sn @ '')''"
| "render_body (Automove am al) =
     ''\<newline>      '' @ am @ (case al of None \<Rightarrow> [] | Some l \<Rightarrow> ''('' @ l @ '')'')"

definition mode_facet :: "params \<Rightarrow> facet list" where
  "mode_facet p =
     [Mode (if str_in ''ro'' (mount_opts p) \<or> str_in ''RO'' (mount_opts p) then ''READ''
            else ''RDWR'')]"

definition parm_facet :: "params \<Rightarrow> facet list" where
  "parm_facet p =
     (case src_params p of
        None \<Rightarrow> []
      | Some sp \<Rightarrow> (if 1 < length sp then [Parm sp] else []))"

definition tag_facet :: "params \<Rightarrow> facet list" where
  "tag_facet p =
     (case tag_untagged p of
        None \<Rightarrow> []
      | Some tu \<Rightarrow> (if 0 < length tu then [Tag tu (tag_ccsid p)] else []))"

definition flag_facets :: "params \<Rightarrow> facet list" where
  "flag_facets p =
     [Setuid (allow_uid p),
      Wait (if str_in ''NOWAIT'' (mount_opts p) \<or> str_in ''nowait'' (mount_opts p) then False
            else True),
      Security (if str_in ''NOSECURITY'' (mount_opts p) \<or> str_in ''nosecurity'' (mount_opts p)
                then False else True)]"

definition sysname_facet :: "params \<Rightarrow> facet list" where
  "sysname_facet p =
     (case sysname p of
        None \<Rightarrow> []
      | Some sn \<Rightarrow> (if 0 < length sn \<and> length sn < 9 then [Sysname sn] else []))"

definition automove_facet :: "params \<Rightarrow> facet list" where
  "automove_facet p =
     (case automove p of
        None \<Rightarrow> []
      | Some am \<Rightarrow>
          (if 1 < length am then
             [Automove am (case automove_list p of
                             None \<Rightarrow> None
                           | Some al \<Rightarrow> (if 1 < length al then Some al else None))]
           else []))"

definition facets :: "params \<Rightarrow> facet list" where
  "facets p = mode_facet p @ parm_facet p @ tag_facet p @ flag_facets p @ sysname_facet p
                @ automove_facet p"

text \<open>
  The part of the two texts that every mount command has, as the source writes it: resource,
  path and type. The file system type reaches the texts in upper case.
\<close>

definition mount_head :: "params \<Rightarrow> string option \<Rightarrow> string" where
  "mount_head p ft = fst (start_mount (src p) (path p) ft [])"

definition body_head :: "params \<Rightarrow> string option \<Rightarrow> string" where
  "body_head p ft = snd (start_mount (src p) (path p) ft [])"

definition fs_type_upper :: "params \<Rightarrow> string option" where
  "fs_type_upper p = (if truthy (fs_type p) then map_option upper (fs_type p) else fs_type p)"

section \<open>Example inputs\<close>

text \<open>
  A system on which every test succeeds and every command returns 0, where \<^verbatim>\<open>df\<close>
  lists the resource as mounted, and whose store holds one line followed by the block of the
  resource. Its regular expression engine compiles every pattern outside the modelled
  fragment to one that matches no line; the resource \<^verbatim>\<open>USER.DATA.ZFS\<close> never asks it.
\<close>

definition ex_store :: "string list" where
  "ex_store =
     [''FILESYSTYPE TYPE(ZFS) ENTRYPOINT(IOEFSCM)'',
      ''/* BEGIN ANSIBLE MANAGED BLOCK 20191231-235959 */'',
      ''/* C01:For Tape2 project */'',
      ''MOUNT FILESYSTEM('' @ sq @ ''USER.DATA.ZFS'' @ sq @ '')'',
      ''      MOUNTPOINT('' @ sq @ ''/u/core'' @ sq @ '')'',
      ''      TYPE('' @ sq @ ''ZFS'' @ sq @ '')'',
      ''/* END ANSIBLE MANAGED BLOCK 20191231-235959 */'']"

definition ex_env :: env where
  "ex_env =
     \<lparr>check_mode = False, fs_exists = True, mp_exists = True, mkdir_ok = True,
      df_rc = 0, df_lines = [''Filesystem'', ''/u/core (USER.DATA.ZFS) 100 50''],
      dtstr = ''20200101-000000'',
      run_command = (\<lambda>c. Some (0, [], [])),
      fst_exists = True, tmp_file_filename = ''/tmp/tmpabc'',
      re_compile = (\<lambda>removing. Some (\<lambda>line. False)),
      content = ex_store\<rparr>"

definition ex_persistent :: persistent_opts where
  "ex_persistent =
     \<lparr>data_set_name = ''SYS1.PARMLIB(BPXPRMAA)'', comments = Some [''For Tape2 project''],
      backup = False, backup_name = None\<rparr>"

text \<open>The first example of the module's documentation, with the defaults filled in.\<close>

definition ex_params :: params where
  "ex_params =
     \<lparr>src = ''USER.DATA.ZFS'', path = Some ''/u/core'', fs_type = Some ''ZFS'',
      state = ''mounted'', persistent = None, unmount_opts = Some ''NORMAL'',
      mount_opts = ''rw'', src_params = Some [], tag_untagged = Some [], tag_ccsid = None,
      allow_uid = True, sysname = Some [], automove = Some ''AUTOMOVE'',
      automove_list = Some []\<rparr>"

text \<open>A store whose first line is the \<^verbatim>\<open>BEGIN\<close> marker of the block.\<close>

definition ex_store0 :: "string list" where
  "ex_store0 = tl ex_store"

definition ex_persisting :: params where
  "ex_persisting = ex_params\<lparr>persistent := Some ex_persistent\<rparr>"

definition ex_remount :: params where
  "ex_remount = ex_params\<lparr>state := ''remounted''\<rparr>"

text \<open>A remount with a persist target of a resource named as a member of a data set.\<close>

definition ex_member :: params where
  "ex_member = ex_remount\<lparr>src := ''USER.PDS(MEM)'', persistent := Some ex_persistent\<rparr>"

section \<open>Properties of the comment cards\<close>

lemma split_nl_nonempty: "split_nl s \<noteq> []"
  by (induction s) (auto split: list.splits)

lemma split_nl_append: "split_nl (a @ nl # b) = split_nl a @ split_nl b"
proof (induction a)
  case Nil
  show ?case by simp
next
  case (Cons c a)
  show ?case
  proof (cases "c = nl")
    case True
    with Cons show ?thesis by simp
  next
    case False
    obtain l ls where sa: "split_nl a = l # ls"
      using split_nl_nonempty [of a] by (cases "split_nl a") auto
    with Cons False show ?thesis by simp
  qed
qed

lemma split_nl_length: "l \<in> set (split_nl s) \<Longrightarrow> length l \<le> length s"
proof (induction s arbitrary: l)
  case Nil
  then show ?case by simp
next
  case (Cons c s)
  obtain k ks where sa: "split_nl s = k # ks"
    using split_nl_nonempty [of s] by (cases "split_nl s") auto
  show ?case
  proof (cases "c = nl")
    case True
    with Cons show ?thesis by (auto simp: le_SucI)
  next
    case False
    with Cons.prems sa have "l = c # k \<or> l \<in> set ks" by simp
    then show ?thesis
    proof
      assume "l = c # k"
      moreover have "length k \<le> length s" using Cons.IH [of k] sa by simp
      ultimately show ?thesis by simp
    next
      assume "l \<in> set ks"
      then have "length l \<le> length s" using Cons.IH [of l] sa by simp
      then show ?thesis by simp
    qed
  qed
qed

lemma length_fmt02: "n < 100 \<Longrightarrow> length (fmt02 n) = 2"
proof -
  assume n: "n < 100"
  have d1: "\<And>m. m < 10 \<Longrightarrow> length (dec m) = 1" by simp
  show ?thesis
  proof (cases "n < 10")
    case True
    then show ?thesis by (simp add: fmt02_def)
  next
    case False
    with n have "n div 10 < 10" by simp
    then have "length (dec (n div 10)) = 1" by (rule d1)
    with False show ?thesis by (simp add: fmt02_def del: dec.simps add: dec.simps [of n])
  qed
qed

lemma wrap_cards_acc:
  "wrap_cards extra ctr parmtext =
     (fst (wrap_cards extra ctr []), fst (snd (wrap_cards extra ctr [])),
      parmtext @ snd (snd (wrap_cards extra ctr [])))"
proof (induction "length extra" arbitrary: extra ctr parmtext rule: less_induct)
  case less
  show ?case
  proof (cases "length extra > 0")
    case False
    then show ?thesis by (simp add: wrap_cards.simps)
  next
    case pos: True
    show ?thesis
    proof (cases "length extra > 60")
      case True
      define stopper where "stopper = find_stopper extra (rev [49..<60])"
      define extra' where "extra' = strip (drop stopper extra)"
      define card where "card = card_open ctr @ take stopper extra @ '' */\<newline>''"
      have "49 \<le> stopper" unfolding stopper_def by (rule find_stopper_ge)
      with True have short: "length extra' < length extra"
        using length_strip_le [of "drop stopper extra"] unfolding extra'_def by simp
      have u: "\<And>pt. wrap_cards extra ctr pt = wrap_cards extra' (ctr + 1) (pt @ card)"
        using True pos unfolding stopper_def extra'_def card_def
        by (subst wrap_cards.simps) (simp add: Let_def)
      show ?thesis
        unfolding u
        by (subst less [OF short]) (subst (1 2 3) less [OF short, of "ctr + 1" "[] @ card"], simp)
    next
      case False
      have short: "length ([]::string) < length extra" using pos by simp
      define card where "card = card_open ctr @ extra @ '' */\<newline>''"
      have u: "\<And>pt. wrap_cards extra ctr pt = wrap_cards [] (ctr + 1) (pt @ card)"
        using False pos unfolding card_def
        by (subst wrap_cards.simps) simp
      show ?thesis
        unfolding u by (simp add: wrap_cards.simps)
    qed
  qed
qed


lemma card_lines:
  assumes "ctr < 100" "length tmpx \<le> 60" "l \<in> set (split_nl (card_open ctr @ tmpx @ '' */''))"
  shows "length l \<le> 70"
proof -
  have "length l \<le> length (card_open ctr @ tmpx @ '' */'')"
    using assms(3) by (rule split_nl_length)
  also have "\<dots> \<le> 70"
    using assms(2) length_fmt02 [OF assms(1)] by (simp add: card_open_def)
  finally show ?thesis .
qed

lemma wrap_cards_lines:
  "ctr + length extra div 49 < 100 \<Longrightarrow>
     l \<in> set (split_nl (snd (snd (wrap_cards extra ctr [])))) \<Longrightarrow> length l \<le> 70"
proof (induction "length extra" arbitrary: extra ctr rule: less_induct)
  case less
  show ?case
  proof (cases "length extra > 0")
    case False
    with less.prems show ?thesis by (simp add: wrap_cards.simps)
  next
    case pos: True
    have c100: "ctr < 100" using less.prems(1) by simp
    show ?thesis
    proof (cases "length extra > 60")
      case True
      define stopper where "stopper = find_stopper extra (rev [49..<60])"
      define extra' where "extra' = strip (drop stopper extra)"
      define body where "body = card_open ctr @ take stopper extra @ '' */''"
      have s49: "49 \<le> stopper" unfolding stopper_def by (rule find_stopper_ge)
      have s60: "stopper \<le> 60" unfolding stopper_def by (rule find_stopper_le)
      have len': "length extra' + 49 \<le> length extra"
        using length_strip_le [of "drop stopper extra"] s49 True unfolding extra'_def by simp
      then have short: "length extra' < length extra" by simp
      have "length extra' div 49 + 1 \<le> length extra div 49"
        using len' by (metis div_add_self2 div_le_mono zero_neq_numeral)
      then have inv: "(ctr + 1) + length extra' div 49 < 100" using less.prems(1) by simp
      have u: "wrap_cards extra ctr [] = wrap_cards extra' (ctr + 1) (body @ [nl])"
        using True pos unfolding stopper_def extra'_def body_def
        by (subst wrap_cards.simps) (simp add: Let_def)
      have "snd (snd (wrap_cards extra ctr [])) =
              body @ nl # snd (snd (wrap_cards extra' (ctr + 1) []))"
        unfolding u by (subst wrap_cards_acc) simp
      then have "l \<in> set (split_nl body) \<or>
                 l \<in> set (split_nl (snd (snd (wrap_cards extra' (ctr + 1) []))))"
        using less.prems(2) by (simp add: split_nl_append)
      then show ?thesis
      proof
        assume "l \<in> set (split_nl body)"
        then show ?thesis
          using card_lines [OF c100, of "take stopper extra" l] s60 unfolding body_def by simp
      next
        assume "l \<in> set (split_nl (snd (snd (wrap_cards extra' (ctr + 1) []))))"
        then show ?thesis using less.hyps [OF short inv] by simp
      qed
    next
      case False
      define body where "body = card_open ctr @ extra @ '' */''"
      have u: "wrap_cards extra ctr [] = wrap_cards [] (ctr + 1) (body @ [nl])"
        using False pos unfolding body_def
        by (subst wrap_cards.simps) simp
      have "snd (snd (wrap_cards extra ctr [])) = body @ nl # []"
        unfolding u by (simp add: wrap_cards.simps)
      then have "l \<in> set (split_nl body) \<or> l = []"
        using less.prems(2) by (auto simp: split_nl_append)
      then show ?thesis
      proof
        assume "l \<in> set (split_nl body)"
        then show ?thesis
          using card_lines [OF c100, of extra l] False unfolding body_def by simp
      next
        assume "l = []"
        then show ?thesis by simp
      qed
    qed
  qed
qed

text \<open>
  Claim C8, as amended. A card is \<^verbatim>\<open>/* Cnn:\<close> (seven characters), at most 60
  characters of text and \<^verbatim>\<open> */\<close> (three characters). For one comment string of
  length 200 the cards are appended to the text built so far, and every line of the
  appended cards has at most 70 characters.
\<close>

theorem comment_cards_width:
  assumes "length s = 200"
  shows "add_comments (Some [s]) parmtext = parmtext @ add_comments (Some [s]) []
         \<and> list_all (\<lambda>l. length l \<le> 70) (split_nl (add_comments (Some [s]) []))"
proof -
  have e: "\<And>pt. add_comments (Some [s]) pt = snd (snd (wrap_cards (strip s) 1 pt))"
    by (simp add: add_comments_def split: prod.splits)
  have "length (strip s) \<le> 200" using length_strip_le [of s] assms by simp
  then have "length (strip s) div 49 \<le> 4"
    using div_le_mono [of "length (strip s)" 200 49] by simp
  then have inv: "1 + length (strip s) div 49 < 100" by simp
  have "\<And>l. l \<in> set (split_nl (add_comments (Some [s]) [])) \<Longrightarrow> length l \<le> 70"
    unfolding e using wrap_cards_lines [OF inv] by simp
  then have "list_all (\<lambda>l. length l \<le> 70) (split_nl (add_comments (Some [s]) []))"
    by (simp add: list_all_iff)
  moreover have "add_comments (Some [s]) parmtext = parmtext @ add_comments (Some [s]) []"
    unfolding e by (subst wrap_cards_acc) simp
  ultimately show ?thesis by simp
qed

text \<open>The amended claim at a comment of 200 letters.\<close>

theorem comment_cards_width_witness:
  "length (replicate 200 (CHR ''a'')) = 200
   \<and> list_all (\<lambda>l. length l \<le> 70)
        (split_nl (add_comments (Some [replicate 200 (CHR ''a'')]) []))"
proof (rule conjI)
  show h: "length (replicate 200 (CHR ''a'')) = 200" by simp
  show "list_all (\<lambda>l. length l \<le> 70)
          (split_nl (add_comments (Some [replicate 200 (CHR ''a'')]) []))"
    by (rule comment_cards_width [OF h, of "[]", THEN conjunct2])
qed

text \<open>
  Claim C8 as stated fails: for a comment of 200 letters the first card is 70 characters
  long, which is more than 63.
\<close>

theorem comment_cards_width_counterexample:
  "length (replicate 200 (CHR ''a'')) = 200
   \<and> length (split_nl (add_comments (Some [replicate 200 (CHR ''a'')]) []) ! 0) = 70
   \<and> \<not> length (split_nl (add_comments (Some [replicate 200 (CHR ''a'')]) []) ! 0) \<le> 63"
  by code_simp

text \<open>
  Claim C6. The claim says that the comment strings are joined with single spaces into one
  buffer before wrapping, so that \<^verbatim>\<open>["a", "b"]\<close> gives one card \<^verbatim>\<open>a b\<close>. The loop
  that emits the cards runs inside the loop over the strings and empties the buffer each
  time, so the statement that adds the space never finds a buffer to add it to: the two
  strings give two cards.
\<close>

theorem one_card_per_comment:
  "add_comments (Some [''a'', ''b'']) [] = ''/* C01:a */\<newline>/* C02:b */\<newline>''"
  by code_simp

text \<open>
  Claim C7. Without a persist target the claim expects one card with the text
  \<^verbatim>\<open>no comments provided\<close>. The default is a string where the loop expects a list, so
  the loop runs over its characters: every letter gets a card of its own, 18 in all, and the
  two spaces give none.
\<close>

theorem default_comment_cards:
  "persistent ex_params = None
   \<and> split_nl (add_comments (comments_of ex_params) []) =
      [''/* C01:n */'', ''/* C02:o */'', ''/* C03:c */'', ''/* C04:o */'', ''/* C05:m */'',
       ''/* C06:m */'', ''/* C07:e */'', ''/* C08:n */'', ''/* C09:t */'', ''/* C10:s */'',
       ''/* C11:p */'', ''/* C12:r */'', ''/* C13:o */'', ''/* C14:v */'', ''/* C15:i */'',
       ''/* C16:d */'', ''/* C17:e */'', ''/* C18:d */'', []]"
  by code_simp

section \<open>Properties of the mount and unmount commands\<close>

lemmas facet_defs = mode_facet_def parm_facet_def tag_facet_def flag_facets_def
  sysname_facet_def automove_facet_def

lemma step_mode: "add_mode (mount_opts p) (c, b) =
    (c @ concat (map render_cmd (mode_facet p)), b @ concat (map render_body (mode_facet p)))"
  by (simp add: add_mode_def mode_facet_def)

lemma step_parm: "add_src_params (src_params p) (c, b) =
    (c @ concat (map render_cmd (parm_facet p)), b @ concat (map render_body (parm_facet p)))"
  by (simp add: add_src_params_def parm_facet_def split: option.splits)

lemma step_tag: "add_tag (tag_untagged p) (tag_ccsid p) (c, b) =
    (c @ concat (map render_cmd (tag_facet p)), b @ concat (map render_body (tag_facet p)))"
  by (simp add: add_tag_def tag_facet_def split: option.splits)

lemma step_flags:
  "add_security (mount_opts p) (add_wait (mount_opts p) (add_setuid (allow_uid p) (c, b))) =
    (c @ concat (map render_cmd (flag_facets p)), b @ concat (map render_body (flag_facets p)))"
  by (simp add: add_security_def add_wait_def add_setuid_def flag_facets_def)

lemma step_sysname: "add_sysname (sysname p) (c, b) =
    (c @ concat (map render_cmd (sysname_facet p)), b @ concat (map render_body (sysname_facet p)))"
  by (simp add: add_sysname_def sysname_facet_def split: option.splits)

lemma step_automove: "add_automove (automove p) (automove_list p) (c, b) =
    (c @ concat (map render_cmd (automove_facet p)),
     b @ concat (map render_body (automove_facet p)))"
  by (simp add: add_automove_def automove_facet_def Let_def split: option.splits)

lemma mount_texts_facets:
  "mount_texts p ft pt =
     (mount_head p ft @ concat (map render_cmd (facets p)),
      pt @ body_head p ft @ concat (map render_body (facets p)))"
proof -
  have s: "start_mount (src p) (path p) ft pt = (mount_head p ft, pt @ body_head p ft)"
    by (simp add: start_mount_def mount_head_def body_head_def)
  show ?thesis
    unfolding mount_texts_def
    by (subst s) (simp only: step_mode step_parm step_tag step_flags step_sysname step_automove
          facets_def map_append concat_append append_assoc)
qed

lemma keys_mode: "map keyword_of (mode_facet p) = [KMode]"
  by (simp add: mode_facet_def)
lemma keys_parm: "map keyword_of (parm_facet p) =
    (if (\<exists>sp. src_params p = Some sp \<and> 1 < length sp) then [KParm] else [])"
  by (simp add: parm_facet_def split: option.splits)
lemma keys_tag: "map keyword_of (tag_facet p) =
    (if (\<exists>tu. tag_untagged p = Some tu \<and> 0 < length tu) then [KTag] else [])"
  by (simp add: tag_facet_def split: option.splits)
lemma keys_flags: "map keyword_of (flag_facets p) = [KSetuid, KWait, KSecurity]"
  by (simp add: flag_facets_def)
lemma keys_sysname: "map keyword_of (sysname_facet p) =
    (if (\<exists>sn. sysname p = Some sn \<and> 0 < length sn \<and> length sn < 9) then [KSysname] else [])"
  by (simp add: sysname_facet_def split: option.splits)
lemma keys_automove: "map keyword_of (automove_facet p) =
    (if (\<exists>am. automove p = Some am \<and> 1 < length am) then [KAutomove] else [])"
  by (simp add: automove_facet_def split: option.splits)

lemmas keys = keys_mode keys_parm keys_tag keys_flags keys_sysname keys_automove

lemma facets_order: "subseq (map keyword_of (facets p)) fixed_order"
  unfolding facets_def fixed_order_def map_append keys by simp

lemma facets_keys:
  "(KParm \<in> set (map keyword_of (facets p))) = (\<exists>sp. src_params p = Some sp \<and> 1 < length sp)"
  "(KTag \<in> set (map keyword_of (facets p))) = (\<exists>tu. tag_untagged p = Some tu \<and> 0 < length tu)"
  "(KSysname \<in> set (map keyword_of (facets p))) = (\<exists>sn. sysname p = Some sn \<and> 0 < length sn \<and> length sn < 9)"
  "(KAutomove \<in> set (map keyword_of (facets p))) = (\<exists>am. automove p = Some am \<and> 1 < length am)"
  unfolding facets_def map_append keys by simp_all

lemma automove_list_shown:
  "(\<exists>am al. Automove am (Some al) \<in> set (facets p)) =
     ((\<exists>am. automove p = Some am \<and> 1 < length am) \<and> (\<exists>al. automove_list p = Some al \<and> 1 < length al))"
  unfolding facets_def facet_defs
  by (cases "automove p"; cases "automove_list p"; auto)

lemma gonna_mount_mounted: "state p = ''mounted'' \<Longrightarrow> gonna_mount p"
  by (simp add: gonna_mount_def)

text \<open>
  Claim C3, as amended. For a parameter set with state \<^verbatim>\<open>mounted\<close> the interactive
  command is the head (resource, path, type) followed by the rendered facets, and the
  keywords of the facets follow the fixed order. Mode, setuid, wait and security are always
  there. The source parameters are there exactly when \<^verbatim>\<open>src_params\<close> has at least two
  characters, the tagging exactly when \<^verbatim>\<open>tag_untagged\<close> is not empty, the owner system
  exactly when \<^verbatim>\<open>sysname\<close> has one to eight characters, automove exactly when
  \<^verbatim>\<open>automove\<close> has at least two characters, and its list exactly when
  \<^verbatim>\<open>automove_list\<close> has at least two characters as well.
\<close>

theorem mount_command_keywords:
  assumes "state p = ''mounted''"
  shows "fst (build_texts p ft dt) = mount_head p ft @ concat (map render_cmd (facets p))
    \<and> subseq (map keyword_of (facets p)) fixed_order
    \<and> {KMode, KSetuid, KWait, KSecurity} \<subseteq> set (map keyword_of (facets p))
    \<and> (KParm \<in> set (map keyword_of (facets p))) = (\<exists>sp. src_params p = Some sp \<and> 1 < length sp)
    \<and> (KTag \<in> set (map keyword_of (facets p))) = (\<exists>tu. tag_untagged p = Some tu \<and> 0 < length tu)
    \<and> (KSysname \<in> set (map keyword_of (facets p)))
         = (\<exists>sn. sysname p = Some sn \<and> 0 < length sn \<and> length sn < 9)
    \<and> (KAutomove \<in> set (map keyword_of (facets p))) = (\<exists>am. automove p = Some am \<and> 1 < length am)
    \<and> (\<exists>am al. Automove am (Some al) \<in> set (facets p))
         = ((\<exists>am. automove p = Some am \<and> 1 < length am)
            \<and> (\<exists>al. automove_list p = Some al \<and> 1 < length al))"
proof -
  have "fst (build_texts p ft dt) = mount_head p ft @ concat (map render_cmd (facets p))"
    using gonna_mount_mounted [OF assms] by (simp add: build_texts_def Let_def mount_texts_facets)
  moreover have "{KMode, KSetuid, KWait, KSecurity} \<subseteq> set (map keyword_of (facets p))"
    unfolding facets_def map_append keys by simp
  ultimately show ?thesis
    using facets_order [of p] facets_keys [of p] automove_list_shown [of p] by blast
qed

text \<open>The amended claim at the documentation's first example.\<close>

theorem mount_command_keywords_witness:
  "state ex_params = ''mounted''
   \<and> fst (build_texts ex_params (Some ''ZFS'') ''20200101-000000'')
       = mount_head ex_params (Some ''ZFS'') @ concat (map render_cmd (facets ex_params))"
proof (rule conjI)
  show h: "state ex_params = ''mounted''" by (simp add: ex_params_def)
  show "fst (build_texts ex_params (Some ''ZFS'') ''20200101-000000'')
       = mount_head ex_params (Some ''ZFS'') @ concat (map render_cmd (facets ex_params))"
    by (rule mount_command_keywords [OF h, THEN conjunct1])
qed

text \<open>
  Claim C3 as stated fails: with \<^verbatim>\<open>src_params\<close> set to the one-character string
  \<^verbatim>\<open>x\<close> the command has no \<^verbatim>\<open>PARM\<close> keyword.
\<close>

theorem short_src_params_counterexample:
  "state (ex_params\<lparr>src_params := Some ''x''\<rparr>) = ''mounted''
   \<and> src_params (ex_params\<lparr>src_params := Some ''x''\<rparr>) = Some ''x''
   \<and> 0 < length ''x''
   \<and> \<not> str_in ''PARM''
         (fst (build_texts (ex_params\<lparr>src_params := Some ''x''\<rparr>) (Some ''ZFS'')
                ''20200101-000000''))"
  by code_simp

text \<open>
  Claim C9. Whenever the module is going to mount, the interactive command and the
  declarative body are renderings of one and the same list of facets: the command is the
  head followed by each facet as a command piece, the block text is the marker line with the
  comment cards, the body head, each facet as a body line, and the closing marker line. So
  the two agree on which facets are present and on their values.
\<close>

theorem command_and_body_agree:
  assumes "gonna_mount p"
  shows "build_texts p ft dt =
     (mount_head p ft @ concat (map render_cmd (facets p)),
      add_comments (comments_of p) (parmhead dt) @ body_head p ft
        @ concat (map render_body (facets p)) @ parmtail dt)"
  using assms by (simp add: build_texts_def Let_def mount_texts_facets)

text \<open>The claim at the documentation's first example.\<close>

theorem command_and_body_agree_witness:
  "gonna_mount ex_params
   \<and> build_texts ex_params (Some ''ZFS'') ''20200101-000000'' =
     (mount_head ex_params (Some ''ZFS'') @ concat (map render_cmd (facets ex_params)),
      add_comments (comments_of ex_params) (parmhead ''20200101-000000'')
        @ body_head ex_params (Some ''ZFS'')
        @ concat (map render_body (facets ex_params)) @ parmtail ''20200101-000000'')"
proof (rule conjI)
  show h: "gonna_mount ex_params" by code_simp
  show "build_texts ex_params (Some ''ZFS'') ''20200101-000000'' =
     (mount_head ex_params (Some ''ZFS'') @ concat (map render_cmd (facets ex_params)),
      add_comments (comments_of ex_params) (parmhead ''20200101-000000'')
        @ body_head ex_params (Some ''ZFS'')
        @ concat (map render_body (facets ex_params)) @ parmtail ''20200101-000000'')"
    by (rule command_and_body_agree [OF h])
qed

text \<open>
  Claim C2. The claim expects the unmount command to carry the resource and the unmount
  mode. With \<^verbatim>\<open>unmount_opts = FORCE\<close> the command that is built names the resource and
  no mode at all: the mode is appended only in the two branches that replace a missing or
  too short option by \<^verbatim>\<open>NORMAL\<close>, and those branches append it to the mount command
  \<^verbatim>\<open>fullcmd\<close> instead of the unmount command, as the second half shows.
\<close>

theorem unmount_command_without_mode:
  "map_sum id cmd
     (run_module ex_env (ex_params\<lparr>state := ''unmounted'', unmount_opts := Some ''FORCE''\<rparr>))
     = Inr (''tsocmd UNMOUNT FILESYSTEM'' @ bs @ ''('' @ bs @ sq @ ''USER.DATA.ZFS'' @ bs @ sq
            @ bs @ '')'')
   \<and> build_unmount ''USER.DATA.ZFS'' None ''tsocmd MOUNT'' = ''tsocmd MOUNT NORMAL''"
  by code_simp

section \<open>Properties of \<^verbatim>\<open>swap_text\<close> and of the store\<close>

text \<open>
  Claim C4. The claim expects the header above the matched line to be deleted with the
  block, also when it starts at the first line of the file. The walk upwards stops before
  index 0, so a \<^verbatim>\<open>BEGIN\<close> marker in the first line is never seen and the header stays
  behind; the same block one line further down is deleted whole.
\<close>

theorem header_at_first_line_left:
  "swap_text (re_compile ex_env) ex_store0 [] ''USER.DATA.ZFS'' =
     Inr ([''/* BEGIN ANSIBLE MANAGED BLOCK 20191231-235959 */'',
           ''/* C01:For Tape2 project */''],
          ''/* BEGIN ANSIBLE MANAGED BLOCK 20191231-235959 */\<newline>/* C01:For Tape2 project */'')
   \<and> swap_text (re_compile ex_env) ex_store [] ''USER.DATA.ZFS'' =
     Inr ([''FILESYSTYPE TYPE(ZFS) ENTRYPOINT(IOEFSCM)''],
          ''FILESYSTYPE TYPE(ZFS) ENTRYPOINT(IOEFSCM)'')"
  by code_simp

text \<open>
  Claim C1. The claim, like the module's documentation, says that the store is left alone
  for the states \<^verbatim>\<open>unmounted\<close> and \<^verbatim>\<open>remounted\<close>. The test
  \<^verbatim>\<open>'mounted' in state\<close> is a substring test and holds for both, so with a persist target
  the store is rewritten: for \<^verbatim>\<open>unmounted\<close> the block of the resource is removed, for
  \<^verbatim>\<open>remounted\<close> it is replaced by a new one.
\<close>

theorem unmounted_rewrites_store:
  "map_sum id store_written
     (run_module ex_env (ex_params\<lparr>state := ''unmounted'', persistent := Some ex_persistent\<rparr>))
     = Inr (Some ''FILESYSTYPE TYPE(ZFS) ENTRYPOINT(IOEFSCM)'')
   \<and> map_sum id (map_option (take 3 \<circ> split_nl) \<circ> store_written)
     (run_module ex_env (ex_params\<lparr>state := ''remounted'', persistent := Some ex_persistent\<rparr>))
     = Inr (Some [''FILESYSTYPE TYPE(ZFS) ENTRYPOINT(IOEFSCM)'',
                  ''/* BEGIN ANSIBLE MANAGED BLOCK 20200101-000000 */'',
                  ''/* C01:For Tape2 project */''])"
  by code_simp

text \<open>
  The model gives a result wherever the code does: \<^verbatim>\<open>swap_text\<close> returns whenever the
  pattern compiles, and \<^verbatim>\<open>run_module\<close> returns a result whenever path and type are
  given, the tests of the system succeed, no command raises and the pattern compiles.
\<close>

lemma swap_text_returns:
  assumes "\<not> list_ex rx_unmodelled removing \<or> re removing \<noteq> None"
  shows "\<exists>c t. swap_text re original adding removing = Inr (c, t)"
  using assms by (auto simp: swap_text_def ms_compile_def Let_def split: option.splits)

lemma run_module_returns:
  assumes "truthy (path p)" "truthy (fs_type p)" "fs_exists e" "mp_exists e" "df_rc e = 0"
    and "\<And>c. run_command e c \<noteq> None" "fst_exists e"
    and "\<not> list_ex rx_unmodelled (src p) \<or> re_compile e (src p) \<noteq> None"
  shows "\<exists>r. run_module e p = Inr r"
proof -
  have ca: "check_args e p = Inr (fs_type_upper p)"
    using assms(1-5) by (simp add: check_args_def fs_type_upper_def)
  have rc: "\<And>c. \<exists>r. run_command e c = Some r"
    using assms(6) by auto
  have um: "\<And>u st. \<exists>st1. unmount_step e p u st = Inr st1"
  proof -
    fix u st
    from rc obtain r where "run_command e u = Some r" by blast
    then show "\<exists>st1. unmount_step e p u st = Inr st1" by (simp add: unmount_step_def)
  qed
  have mo: "\<And>c st. \<exists>st1. mount_step e p c st = Inr st1"
  proof -
    fix c st
    from rc obtain r where "run_command e c = Some r" by blast
    then show "\<exists>st1. mount_step e p c st = Inr st1" by (simp add: mount_step_def)
  qed
  have bk: "\<And>ps st. \<exists>st1. backup_step e ps st = Inr st1"
  proof -
    fix ps :: persistent_opts and st
    from rc obtain r where
      "run_command e (copy_out e (upper (fmt_opt (backup_name ps)))) = Some r" by blast
    then show "\<exists>st1. backup_step e ps st = Inr st1" by (simp add: backup_step_def Let_def)
  qed
  have rw: "\<And>dsn t st. \<exists>st1. rewrite_step e p dsn t st = Inr st1"
  proof -
    fix dsn t st
    from swap_text_returns [of "src p" "re_compile e" "content e" t] assms(8) obtain c x where
      "swap_text (re_compile e) (content e) t (src p) = Inr (c, x)" by blast
    moreover from rc obtain r where "run_command e (copy_out e dsn) = Some r" by blast
    ultimately show "\<exists>st1. rewrite_step e p dsn t st = Inr st1"
      by (simp add: rewrite_step_def)
  qed
  have pe: "\<And>t st. \<exists>st1. persist_step e p t st = Inr st1"
  proof -
    fix t st
    show "\<exists>st1. persist_step e p t st = Inr st1"
    proof (cases "write_persistent p \<and> \<not> check_mode e")
      case False
      then show ?thesis by (auto simp: persist_step_def)
    next
      case True
      then obtain ps where ps: "persistent p = Some ps"
        by (auto simp: write_persistent_def split: if_splits option.splits)
      obtain r where r: "run_command e (copy_in e (upper (data_set_name ps))) = Some r"
        using rc by blast
      obtain st1 where b: "backup_step e ps
          (st\<lparr>s_last := last_of r, s_run := s_run st @ [copy_in e (upper (data_set_name ps))]\<rparr>)
          = Inr st1" using bk by blast
      obtain st2 where "rewrite_step e p (upper (data_set_name ps)) t st1 = Inr st2"
        using rw by blast
      with True ps r b assms(7) show ?thesis
        by (simp add: persist_step_def Let_def)
    qed
  qed
  obtain st1 where s1: "unmount_step e p
      (if gonna_unmount p then build_unmount (src p) (unmount_opts p)
          (fst (build_texts p (fs_type_upper p) (dtstr e))) else [])
      \<lparr>p_changed = False,
       p_comment = (if gonna_mount p then ''starting\<newline>ran unmount command\<newline>'' else ''starting\<newline>''),
       p_mounted = currently_mounted e p, p_run = []\<rparr> = Inr st1"
    using um by blast
  obtain st2 where s2: "mount_step e p (fst (build_texts p (fs_type_upper p) (dtstr e))) st1 = Inr st2"
    using mo by blast
  obtain st3 where s3: "persist_step e p (snd (build_texts p (fs_type_upper p) (dtstr e)))
       \<lparr>s_comment = p_comment st2, s_last = (0, None, None),
        s_run = p_run st2, s_written = None\<rparr> = Inr st3"
    using pe by blast
  show ?thesis
    unfolding run_module_def Let_def by (simp add: ca s1 s2 s3)
qed

lemma check_args_value: "check_args e p = Inr ft \<Longrightarrow> ft = fs_type_upper p"
  by (simp add: check_args_def fs_type_upper_def split: if_splits)

lemma py_ne_str_list: "py_ne (PyStr t) (PyList c)"
  by (simp add: py_ne_def)

lemma rewrite_step_written:
  assumes "rewrite_step e p dsn parmtext st = Inr st3"
  shows "\<exists>c t. swap_text (re_compile e) (content e) parmtext (src p) = Inr (c, t) \<and> s_written st3 = Some t"
  using assms py_ne_str_list
  by (auto simp: rewrite_step_def split: sum.splits prod.splits option.splits if_splits)

lemma persist_step_written:
  assumes "write_persistent p" "\<not> check_mode e" "persist_step e p parmtext st = Inr st3"
  shows "\<exists>c t. swap_text (re_compile e) (content e) parmtext (src p) = Inr (c, t) \<and> s_written st3 = Some t"
proof -
  from assms(1) obtain ps where ps: "persistent p = Some ps"
    by (auto simp: write_persistent_def split: if_splits option.splits)
  from assms ps obtain st1 where
    "rewrite_step e p (upper (data_set_name ps)) parmtext st1 = Inr st3"
    by (auto simp: persist_step_def Let_def split: if_splits option.splits sum.splits)
  then show ?thesis by (rule rewrite_step_written)
qed

lemma run_module_persist:
  assumes "run_module e p = Inr r"
  obtains st st3 where
    "persist_step e p (snd (build_texts p (fs_type_upper p) (dtstr e))) st = Inr st3"
    "store_written r = s_written st3"
proof -
  from assms obtain ft where ft: "check_args e p = Inr ft"
    by (auto simp: run_module_def split: sum.splits)
  then have ftv: "ft = fs_type_upper p" by (rule check_args_value)
  from assms ft obtain st st3 where
    "persist_step e p (snd (build_texts p ft (dtstr e))) st = Inr st3"
    "store_written r = s_written st3"
    unfolding run_module_def Let_def by (auto split: sum.splits)
  with ftv that show ?thesis by simp
qed

text \<open>
  Claim C5. Whatever \<^verbatim>\<open>swap_text\<close> returns is a string, and a string differs from
  every list of lines: from the list passed in and from the list as the call leaves it. So
  on every run that persists (a persist target for a state that writes, no check mode) and
  comes to its end, the test \<^verbatim>\<open>newtext != content\<close> holds and the returned text is
  written to the store.
\<close>

theorem store_always_rewritten:
  assumes "write_persistent p" "\<not> check_mode e" "run_module e p = Inr r"
  shows "(case swap_text re original adding removing of
            Inl err \<Rightarrow> True
          | Inr (c, t) \<Rightarrow> py_ne (PyStr t) (PyList original) \<and> py_ne (PyStr t) (PyList c))
         \<and> (\<exists>content' newtext.
              swap_text (re_compile e) (content e)
                  (snd (build_texts p (fs_type_upper p) (dtstr e))) (src p)
                = Inr (content', newtext)
              \<and> py_ne (PyStr newtext) (PyList (content e))
              \<and> py_ne (PyStr newtext) (PyList content')
              \<and> store_written r = Some newtext)"
proof -
  from assms(3) obtain st st3 where
    ps: "persist_step e p (snd (build_texts p (fs_type_upper p) (dtstr e))) st = Inr st3"
    and w: "store_written r = s_written st3"
    by (rule run_module_persist)
  have "case swap_text re original adding removing of
            Inl err \<Rightarrow> True
          | Inr (c, t) \<Rightarrow> py_ne (PyStr t) (PyList original) \<and> py_ne (PyStr t) (PyList c)"
    by (simp add: py_ne_str_list split: sum.splits prod.splits)
  moreover from persist_step_written [OF assms(1,2) ps] w
  have "\<exists>content' newtext.
              swap_text (re_compile e) (content e)
                  (snd (build_texts p (fs_type_upper p) (dtstr e))) (src p)
                = Inr (content', newtext)
              \<and> py_ne (PyStr newtext) (PyList (content e))
              \<and> py_ne (PyStr newtext) (PyList content')
              \<and> store_written r = Some newtext"
    using py_ne_str_list by auto
  ultimately show ?thesis by (rule conjI)
qed

text \<open>
  The claim at a mount with a persist target, and at a remount with a persist target of a
  resource whose name holds parentheses, where the pattern comes from the engine.
\<close>

theorem store_always_rewritten_witness:
  "write_persistent ex_persisting \<and> \<not> check_mode ex_env
   \<and> run_module ex_env ex_persisting = Inr (projr (run_module ex_env ex_persisting))
   \<and> store_written (projr (run_module ex_env ex_persisting)) \<noteq> None
   \<and> write_persistent ex_member
   \<and> run_module ex_env ex_member = Inr (projr (run_module ex_env ex_member))
   \<and> store_written (projr (run_module ex_env ex_member)) \<noteq> None"
proof -
  have h1: "write_persistent ex_persisting" by code_simp
  have h2: "\<not> check_mode ex_env" by code_simp
  have h3: "run_module ex_env ex_persisting = Inr (projr (run_module ex_env ex_persisting))"
    by code_simp
  have m1: "write_persistent ex_member" by code_simp
  have m3: "run_module ex_env ex_member = Inr (projr (run_module ex_env ex_member))"
    by code_simp
  from store_always_rewritten [OF h1 h2 h3, THEN conjunct2]
  have w1: "store_written (projr (run_module ex_env ex_persisting)) \<noteq> None" by auto
  from store_always_rewritten [OF m1 h2 m3, THEN conjunct2]
  have w2: "store_written (projr (run_module ex_env ex_member)) \<noteq> None" by auto
  from h1 h2 h3 w1 m1 m3 w2 show ?thesis by blast
qed

section \<open>Properties of the reported result\<close>

lemma remounted_flags:
  assumes "state p = ''remounted''"
  shows "gonna_mount p" and "gonna_unmount p"
  using assms by (simp_all add: gonna_mount_def gonna_unmount_def)

lemma unmount_step_changed:
  assumes "unmount_step e p u st = Inr st1" "gonna_unmount p"
  shows "p_changed st1 \<or> \<not> p_mounted st1"
  using assms by (auto simp: unmount_step_def split: if_splits option.splits)

lemma mount_step_changed:
  assumes "mount_step e p c st1 = Inr st2" "gonna_mount p" "p_changed st1 \<or> \<not> p_mounted st1"
  shows "p_changed st2"
  using assms by (auto simp: mount_step_def split: if_splits option.splits)

lemma run_module_changed:
  assumes "run_module e p = Inr r"
  obtains ft u c st1 st2 where "unmount_step e p u
      \<lparr>p_changed = False,
       p_comment = (if gonna_mount p then ''starting\<newline>ran unmount command\<newline>'' else ''starting\<newline>''),
       p_mounted = currently_mounted e p, p_run = []\<rparr> = Inr st1"
    "mount_step e p c st1 = Inr st2" "changed r = p_changed st2"
  using assms unfolding run_module_def Let_def
  by (auto split: sum.splits)

text \<open>
  Claim C10. For the state \<^verbatim>\<open>remounted\<close> every run that returns a result reports
  \<^verbatim>\<open>changed\<close> as true, whether or not the resource was mounted and whether or not the run
  is a check-mode run: either the unmount block sets it, or the resource is not mounted when
  the mount block is reached and that block sets it.
\<close>

theorem remounted_changed:
  assumes "state p = ''remounted''" "run_module e p = Inr r"
  shows "changed r"
proof -
  from assms(2) obtain u c st0 st1 st2 where
    a: "unmount_step e p u st0 = Inr st1" and b: "mount_step e p c st1 = Inr st2"
    and c: "changed r = p_changed st2"
    by (rule run_module_changed)
  from unmount_step_changed [OF a remounted_flags(2) [OF assms(1)]]
  have "p_changed st2" by (rule mount_step_changed [OF b remounted_flags(1) [OF assms(1)]])
  with c show ?thesis by simp
qed

text \<open>
  The claim at a remount of a mounted resource, and at a remount of a resource that is not
  mounted and whose name holds parentheses.
\<close>

theorem remounted_changed_witness:
  "state ex_remount = ''remounted''
   \<and> run_module ex_env ex_remount = Inr (projr (run_module ex_env ex_remount))
   \<and> changed (projr (run_module ex_env ex_remount))
   \<and> state ex_member = ''remounted''
   \<and> run_module ex_env ex_member = Inr (projr (run_module ex_env ex_member))
   \<and> changed (projr (run_module ex_env ex_member))"
proof -
  have h1: "state ex_remount = ''remounted''" by code_simp
  have h2: "run_module ex_env ex_remount = Inr (projr (run_module ex_env ex_remount))"
    by code_simp
  have m1: "state ex_member = ''remounted''" by code_simp
  have m2: "run_module ex_env ex_member = Inr (projr (run_module ex_env ex_member))"
    by code_simp
  from remounted_changed [OF h1 h2] remounted_changed [OF m1 m2] h1 h2 m1 m2
  show ?thesis by blast
qed

end
